theory Spec2Isabelle
  imports Complex_Main
begin

section \<open>Strings\<close>

text \<open>
  A JavaScript string is modelled as an Isabelle \<^typ>\<open>string\<close>; a character is read as
  the code point of the same number (0 to 255). The array element read
  \<^verbatim>\<open>String(row[i] ?? '')\<close> is \<open>cellAt row i\<close>: a cell beyond the end of the row reads
  as the empty string. The rows are \<^verbatim>\<open>string[][]\<close>, as the source declares them, so
  \<^verbatim>\<open>String(cell ?? '')\<close> on a cell that is present leaves it as it is.
\<close>

type_synonym row = "string list"

definition cellAt :: "row \<Rightarrow> nat \<Rightarrow> string" where
  "cellAt r i = (if i < length r then r ! i else [])"

text \<open>The white space that \<^verbatim>\<open>String.prototype.trim\<close> removes, among the code points
  below 256: TAB, LF, VT, FF, CR, SP and NBSP.\<close>

definition isWhiteSpace :: "char \<Rightarrow> bool" where
  "isWhiteSpace c =
     (c \<in> set [CHR 0x09, CHR 0x0A, CHR 0x0B, CHR 0x0C, CHR 0x0D, CHR 0x20, CHR 0xA0])"

definition trim :: "string \<Rightarrow> string" where
  "trim s = rev (dropWhile isWhiteSpace (rev (dropWhile isWhiteSpace s)))"

text \<open>\<^verbatim>\<open>toLowerCase\<close> on code points below 256: A to Z, and the accented capitals
  0xC0 to 0xDE without the multiplication sign 0xD7, move up by 32.\<close>

definition toLowerCaseChar :: "char \<Rightarrow> char" where
  "toLowerCaseChar c =
     (let n = (of_char c :: nat)
      in if (65 \<le> n \<and> n \<le> 90) \<or> (192 \<le> n \<and> n \<le> 222 \<and> n \<noteq> 215)
         then char_of (n + 32) else c)"

definition toLowerCase :: "string \<Rightarrow> string" where
  "toLowerCase s = map toLowerCaseChar s"

definition startsWith :: "string \<Rightarrow> string \<Rightarrow> bool" where
  "startsWith s p = (take (length p) s = p)"

definition endsWith :: "string \<Rightarrow> string \<Rightarrow> bool" where
  "endsWith s p = (length p \<le> length s \<and> drop (length s - length p) s = p)"

definition includesChar :: "string \<Rightarrow> char \<Rightarrow> bool" where
  "includesChar s c = (c \<in> set s)"

section \<open>URL plausibility (index.tsx, lines 16 to 21 and 114 to 139)\<close>

definition GENERIC_EMAIL_DOMAINS :: "string list" where
  "GENERIC_EMAIL_DOMAINS = map toLowerCase
     [''gmail.com'', ''yahoo.com'', ''outlook.com'', ''aol.com'', ''hotmail.com'',
      ''icloud.com'', ''live.com'', ''msn.com'', ''protonmail.com'', ''zoho.com'',
      ''gmx.com'', ''mail.com'', ''yandex.com'', ''comcast.net'', ''verizon.net'',
      ''att.net'', ''sbcglobal.net'', ''bellsouth.net'', ''cox.net'', ''charter.net'']"

definition normalizeUrlForComparison :: "string \<Rightarrow> string" where
  "normalizeUrlForComparison url =
     (let n0 = toLowerCase (trim url);
          n1 = (if startsWith n0 ''http://'' then drop 7 n0
                else if startsWith n0 ''https://'' then drop 8 n0
                else n0);
          n2 = (if startsWith n1 ''www.'' then drop 4 n1 else n1);
          n3 = (if endsWith n2 ''/'' then butlast n2 else n2)
      in n3)"

definition isPlausibleUrl :: "string \<Rightarrow> bool" where
  "isPlausibleUrl url =
     (let trimmedUrl = trim url
      in if trimmedUrl = [] then False
         else if \<not> includesChar trimmedUrl CHR ''.'' then False
         else if includesChar trimmedUrl CHR ''@''
                 \<and> list_ex (\<lambda>domain. endsWith trimmedUrl domain) GENERIC_EMAIL_DOMAINS
              then False
         else if list_ex (\<lambda>domain. normalizeUrlForComparison trimmedUrl = domain)
                   GENERIC_EMAIL_DOMAINS
              then False
         else True)"

section \<open>Cleaning the placeholders of a response (index.tsx, lines 84 to 111)\<close>

definition notFoundPlaceholders :: "string list" where
  "notFoundPlaceholders = map toLowerCase
     [''url_not_found'',
      ''no official website found'',
      ''not found'',
      ''n/a'',
      ''null'',
      ''undefined'',
      ''insufficient specific information available on the website to generate a detailed analytical profile for referral matchmaking.'']"

text \<open>The body of the loop over the data rows: the cell at index 2 of a row with more
  than two cells is blanked when its trimmed value is not empty and, lowercased, is one of
  the placeholders.\<close>

definition cleanRow :: "row \<Rightarrow> row" where
  "cleanRow r =
     (if length r > 2
      then (let cellValue = cellAt r 2
            in if trim cellValue \<noteq> []
               then (if toLowerCase (trim cellValue) \<in> set notFoundPlaceholders
                     then r[2 := []] else r)
               else r)
      else r)"

text \<open>The loop starts at index 1: the header row is copied and never cleaned.\<close>

definition cleanAiNotFoundResponses :: "row list \<Rightarrow> row list" where
  "cleanAiNotFoundResponses data =
     (case data of [] \<Rightarrow> [] | header # dataRows \<Rightarrow> header # map cleanRow dataRows)"

section \<open>Cost of an operation (index.tsx, lines 23 to 31 and 333 to 345)\<close>

text \<open>Token and request counts are natural numbers; money is a real number (the source
  computes it in double precision, the model in exact arithmetic).\<close>

definition FLASH_PRICE_INPUT_PER_MILLION_TOKENS :: real where
  "FLASH_PRICE_INPUT_PER_MILLION_TOKENS = 0.15"

definition FLASH_PRICE_OUTPUT_THINKING_PER_MILLION_TOKENS :: real where
  "FLASH_PRICE_OUTPUT_THINKING_PER_MILLION_TOKENS = 3.50"

definition FLASH_PRICE_GROUNDING_PER_THOUSAND_REQUESTS_AFTER_FREE_TIER :: real where
  "FLASH_PRICE_GROUNDING_PER_THOUSAND_REQUESTS_AFTER_FREE_TIER = 35"

definition FLASH_FREE_GROUNDING_REQUESTS_PER_DAY :: nat where
  "FLASH_FREE_GROUNDING_REQUESTS_PER_DAY = 1500"

definition PRO_PRICE_INPUT_PER_MILLION_TOKENS :: real where
  "PRO_PRICE_INPUT_PER_MILLION_TOKENS = 1.25"

definition PRO_PRICE_OUTPUT_PER_MILLION_TOKENS :: real where
  "PRO_PRICE_OUTPUT_PER_MILLION_TOKENS = 10.00"

datatype modelType = flash | pro

text \<open>The third argument is taken and not used: the source leaves the grounding cost out
  of the cost of an operation.\<close>

fun calculateOperationCost :: "nat \<Rightarrow> nat \<Rightarrow> nat \<Rightarrow> modelType \<Rightarrow> real" where
  "calculateOperationCost inputTokens outputTokens apiRequests flash =
     (real inputTokens / 1000000) * FLASH_PRICE_INPUT_PER_MILLION_TOKENS
     + (real outputTokens / 1000000) * FLASH_PRICE_OUTPUT_THINKING_PER_MILLION_TOKENS"
| "calculateOperationCost inputTokens outputTokens apiRequests pro =
     (real inputTokens / 1000000) * PRO_PRICE_INPUT_PER_MILLION_TOKENS
     + (real outputTokens / 1000000) * PRO_PRICE_OUTPUT_PER_MILLION_TOKENS"

section \<open>The generation client\<close>

text \<open>
  The client is the injected dependency of the run. \<open>generateContent genAI b r\<close> is what
  the service answers to attempt \<open>r\<close> (the value of \<^verbatim>\<open>retries\<close>) on batch number \<open>b\<close>:
  \<^item> \<open>Throws\<close>: the call rejects (network or service error);
  \<^item> \<open>NoText\<close>: a response that is missing or whose \<^verbatim>\<open>text\<close> is not a string;
  \<^item> \<open>Text tok decoded\<close>: a response with a text. \<open>tok\<close> is what \<^verbatim>\<open>countTokens\<close> gives for
    it (\<open>None\<close> when that call throws). \<open>decoded\<close> is the outcome of the decoding steps, which
    are library calls (the fence pattern, the bracket scan, \<^verbatim>\<open>JSON.parse\<close>): \<open>Some rows\<close> when
    the text holds a JSON array of arrays, the cells read with \<^verbatim>\<open>String(cell ?? '')\<close> as the
    cleaner does; \<open>None\<close> when \<^verbatim>\<open>JSON.parse\<close> throws or the value is not an array of arrays, on
    which \<^verbatim>\<open>cleanAiNotFoundResponses\<close> or the \<^verbatim>\<open>slice\<close> after it throws.
  \<open>countTokens genAI rows\<close> is the token count of the prompt built around \<open>rows\<close>.
\<close>

datatype reply = Throws | NoText | Text "nat option" "row list option"

record client =
  generateContent :: "nat \<Rightarrow> nat \<Rightarrow> reply"
  countTokens :: "row list \<Rightarrow> nat option"

text \<open>\<^verbatim>\<open>getTokenCountForModel\<close> (lines 321 to 331) catches the error of the count and
  returns 0.\<close>

definition getTokenCountForModel :: "nat option \<Rightarrow> nat" where
  "getTokenCountForModel counted = (case counted of None \<Rightarrow> 0 | Some totalTokens \<Rightarrow> totalTokens)"

section \<open>The URL-finding run (index.tsx, lines 1230 to 1353)\<close>

definition BATCH_SIZE :: nat where
  "BATCH_SIZE = 20"

definition MAX_RETRIES :: nat where
  "MAX_RETRIES = 3"

text \<open>\<^verbatim>\<open>Math.ceil(dataRows.length / BATCH_SIZE)\<close>\<close>

definition totalBatches :: "nat \<Rightarrow> nat" where
  "totalBatches n = (n + (BATCH_SIZE - 1)) div BATCH_SIZE"

text \<open>\<^verbatim>\<open>dataRows.slice(i * BATCH_SIZE, i * BATCH_SIZE + BATCH_SIZE)\<close>\<close>

definition currentChunk :: "row list \<Rightarrow> nat \<Rightarrow> row list" where
  "currentChunk dataRows i = take BATCH_SIZE (drop (i * BATCH_SIZE) dataRows)"

text \<open>The rows of a chunk whose cell 2 is not a plausible URL, each with its index in the
  chunk (\<^verbatim>\<open>originalIndexInChunk\<close>, \<^verbatim>\<open>rowData\<close>).\<close>

definition itemsRequiringAiLookup :: "row list \<Rightarrow> (nat \<times> row) list" where
  "itemsRequiringAiLookup chunk =
     filter (\<lambda>(index, r). \<not> isPlausibleUrl (cellAt r 2)) (zip [0..<length chunk] chunk)"

text \<open>\<^verbatim>\<open>while (row.length < 3) row.push('')\<close>\<close>

definition padTo3 :: "row \<Rightarrow> row" where
  "padTo3 r = r @ replicate (3 - length r) []"

text \<open>The callback of the \<^verbatim>\<open>forEach\<close> of line 1317: a response row goes to the chunk
  row that its item names (\<^verbatim>\<open>originalIndexInChunk\<close>), and only into its cell 2. The rows
  are cleaned rows, which are arrays, so the test \<^verbatim>\<open>Array.isArray(aiRow)\<close> holds.\<close>

definition scatter :: "(nat \<times> row) \<times> row \<Rightarrow> row list \<Rightarrow> row list" where
  "scatter = (\<lambda>(originalRowInfo, aiRow) final.
                final[fst originalRowInfo :=
                        (padTo3 (final ! fst originalRowInfo))[2 := cellAt aiRow 2]])"

text \<open>Lines 1314 and 1317: the copy of the chunk after the \<^verbatim>\<open>forEach\<close>, which pairs
  response row \<open>idx\<close> with item \<open>idx\<close>. It runs after the two counts were found equal.\<close>

definition mergeRows :: "row list \<Rightarrow> (nat \<times> row) list \<Rightarrow> row list \<Rightarrow> row list" where
  "mergeRows chunk items aiRows = fold scatter (zip items aiRows) chunk"

text \<open>Lines 1313 and 1315: the decoded response is cleaned, and its first row is dropped
  as the header when the header row of the data is not empty.\<close>

definition aiProcessedRowsOnly :: "row \<Rightarrow> row list \<Rightarrow> row list" where
  "aiProcessedRowsOnly headerRow rows =
     (let suggestedBatchDataFromAI = cleanAiNotFoundResponses rows
      in if length headerRow > 0 then drop 1 suggestedBatchDataFromAI
         else suggestedBatchDataFromAI)"

text \<open>The state of the run: its local counters and accumulators, and a log of the calls
  of \<^verbatim>\<open>generateContent\<close> (batch number, attempt), which the source does not keep: it
  makes the calls of a run a part of what the run returns.\<close>

record runState =
  currentRunOpInputTokens :: nat
  currentRunOpOutputTokens :: nat
  currentRunOpApiRequests :: nat
  runSkippedBatchNumbersLocal :: "nat list"
  allProcessedDataRows :: "row list"
  generateContentCalls :: "(nat \<times> nat) list"

definition initialRunState :: runState where
  "initialRunState =
     \<lparr>currentRunOpInputTokens = 0, currentRunOpOutputTokens = 0, currentRunOpApiRequests = 0,
      runSkippedBatchNumbersLocal = [], allProcessedDataRows = [], generateContentCalls = []\<rparr>"

text \<open>Lines 1283 to 1286, after the call returned: the request is counted when the flag is
  not set and this is the first attempt.\<close>

definition countRequest :: "nat \<Rightarrow> bool \<Rightarrow> runState \<Rightarrow> bool \<times> runState" where
  "countRequest retries made st =
     (if \<not> made \<and> retries = 0
      then (True, st\<lparr>currentRunOpApiRequests := currentRunOpApiRequests st + 1\<rparr>)
      else (made, st))"

text \<open>One pass through the \<^verbatim>\<open>try\<close> block (lines 1274 to 1320). The result is
  \<^verbatim>\<open>batchSuccess\<close>, the flag \<^verbatim>\<open>batchApiRequestMadeThisAttempt\<close> and the state; \<open>False\<close> is a
  pass that threw. The call is logged when it is made; the request is counted only after
  it returned. The output tokens are added as soon as the response has a text, before it
  is decoded. The grounding sources of line 1319 and the messages of the activity log are
  kept outside the state modelled here; collecting the sources of a response of the
  declared type does not throw.\<close>

definition attempt ::
  "client \<Rightarrow> row \<Rightarrow> row list \<Rightarrow> (nat \<times> row) list \<Rightarrow> nat \<Rightarrow> nat \<Rightarrow> bool \<Rightarrow> runState
     \<Rightarrow> bool \<times> bool \<times> runState" where
  "attempt genAI headerRow chunk items batchDisplayNum retries made st =
     (let st1 = st\<lparr>generateContentCalls :=
                     generateContentCalls st @ [(batchDisplayNum, retries)]\<rparr>
      in case generateContent genAI batchDisplayNum retries of
           Throws \<Rightarrow> (False, made, st1)
         | NoText \<Rightarrow>
             (let (made2, st2) = countRequest retries made st1 in (False, made2, st2))
         | Text tok decoded \<Rightarrow>
             (let (made2, st2) = countRequest retries made st1;
                  st3 = st2\<lparr>currentRunOpOutputTokens :=
                              currentRunOpOutputTokens st2 + getTokenCountForModel tok\<rparr>
              in case decoded of
                   None \<Rightarrow> (False, made2, st3)
                 | Some rows \<Rightarrow>
                     (let aiRows = aiProcessedRowsOnly headerRow rows
                      in if length aiRows \<noteq> length items
                         then (False, made2, st3)
                         else (True, made2,
                               st3\<lparr>allProcessedDataRows := allProcessedDataRows st3
                                      @ mergeRows chunk items aiRows\<rparr>))))"

text \<open>The passes through the \<^verbatim>\<open>try\<close> block that end in the \<^verbatim>\<open>catch\<close> block: the call
  rejects, the response has no text, the text does not decode, or the number of response
  rows is not the number of rows sent.\<close>

definition attemptThrows :: "client \<Rightarrow> row \<Rightarrow> (nat \<times> row) list \<Rightarrow> nat \<Rightarrow> nat \<Rightarrow> bool" where
  "attemptThrows genAI headerRow items batchDisplayNum retries =
     (case generateContent genAI batchDisplayNum retries of
        Throws \<Rightarrow> True
      | NoText \<Rightarrow> True
      | Text tok decoded \<Rightarrow>
          (case decoded of
             None \<Rightarrow> True
           | Some rows \<Rightarrow> length (aiProcessedRowsOnly headerRow rows) \<noteq> length items))"

text \<open>Lines 1324 to 1331: the retries are used up.\<close>

definition giveUp :: "row list \<Rightarrow> nat \<Rightarrow> nat \<Rightarrow> bool \<Rightarrow> runState \<Rightarrow> runState" where
  "giveUp chunk batchDisplayNum retries made st =
     (let st1 = st\<lparr>allProcessedDataRows := allProcessedDataRows st @ chunk,
                   runSkippedBatchNumbersLocal :=
                     runSkippedBatchNumbersLocal st @ [batchDisplayNum]\<rparr>
      in if \<not> made \<and> retries = MAX_RETRIES + 1
         then st1\<lparr>currentRunOpApiRequests := currentRunOpApiRequests st1 + 1\<rparr>
         else st1)"

text \<open>The loop \<^verbatim>\<open>while (retries <= MAX_RETRIES && !batchSuccess)\<close>; the backoff delay
  between two attempts has no effect on the state.\<close>

function retryLoop ::
  "client \<Rightarrow> row \<Rightarrow> row list \<Rightarrow> (nat \<times> row) list \<Rightarrow> nat \<Rightarrow> nat \<Rightarrow> bool \<Rightarrow> runState
     \<Rightarrow> runState" where
  "retryLoop genAI headerRow chunk items batchDisplayNum retries made st =
     (if retries \<le> MAX_RETRIES
      then (case attempt genAI headerRow chunk items batchDisplayNum retries made st of
              (batchSuccess, made', st') \<Rightarrow>
                if batchSuccess then st'
                else if retries + 1 > MAX_RETRIES
                     then giveUp chunk batchDisplayNum (retries + 1) made' st'
                     else retryLoop genAI headerRow chunk items batchDisplayNum
                            (retries + 1) made' st')
      else st)"
  by pat_completeness auto
termination
  by (relation "measure (\<lambda>(genAI, headerRow, chunk, items, batchDisplayNum, retries, made, st).
                           MAX_RETRIES + 1 - retries)") auto

declare retryLoop.simps [simp del]

text \<open>The body of the loop over the batches (lines 1245 to 1339).\<close>

definition processBatch :: "client \<Rightarrow> row \<Rightarrow> row list \<Rightarrow> nat \<Rightarrow> runState \<Rightarrow> runState" where
  "processBatch genAI headerRow dataRows i st =
     (let currentChunkOfOriginalDataRows = currentChunk dataRows i;
          batchDisplayNum = i + 1;
          items = itemsRequiringAiLookup currentChunkOfOriginalDataRows
      in if length items = 0
         then st\<lparr>allProcessedDataRows :=
                   allProcessedDataRows st @ currentChunkOfOriginalDataRows\<rparr>
         else (let batchInputTokens =
                     getTokenCountForModel (countTokens genAI (headerRow # map snd items));
                   st1 = st\<lparr>currentRunOpInputTokens :=
                              currentRunOpInputTokens st + batchInputTokens\<rparr>
               in retryLoop genAI headerRow currentChunkOfOriginalDataRows items
                    batchDisplayNum 0 False st1))"

datatype status = Idle | EstimatingInput | Running | Completed | Error

datatype abort = ApiKeyMissing | InvalidData

text \<open>What a run leaves: the data shown at its end (header and accumulator, line 1351),
  the final status (line 1341), the cost of the operation that line 1346 adds to the total
  of the session, and the final state.\<close>

record urlRunOutcome =
  displayData :: "row list"
  opStatus :: status
  opEstimatedCost :: real
  finalState :: runState

text \<open>The loop over the batches, from the state at the start of a run.\<close>

definition runBatches :: "client \<Rightarrow> row \<Rightarrow> row list \<Rightarrow> runState" where
  "runBatches genAI headerRow dataRows =
     fold (processBatch genAI headerRow dataRows) [0..<totalBatches (length dataRows)]
       initialRunState"

text \<open>The argument is the parsed content of the display: the run stops at once without a
  client, and on data with fewer than two rows.\<close>

definition handleFindUrlsWithAi :: "client option \<Rightarrow> row list \<Rightarrow> abort + urlRunOutcome" where
  "handleFindUrlsWithAi genAI initialDataForProcessing =
     (case genAI of
        None \<Rightarrow> Inl ApiKeyMissing
      | Some cl \<Rightarrow>
          if length initialDataForProcessing < 2 then Inl InvalidData
          else (let headerRow = hd initialDataForProcessing;
                    dataRows = tl initialDataForProcessing;
                    st = runBatches cl headerRow dataRows
                in Inr \<lparr>displayData = headerRow # allProcessedDataRows st,
                        opStatus = (if length (runSkippedBatchNumbersLocal st) > 0
                                    then Error else Completed),
                        opEstimatedCost =
                          calculateOperationCost (currentRunOpInputTokens st)
                            (currentRunOpOutputTokens st) (currentRunOpApiRequests st) flash,
                        finalState = st\<rparr>))"

section \<open>The estimate before the run (index.tsx, lines 1355 to 1445)\<close>

record PreRunEstimation =
  inputTokens :: nat
  apiRequests :: nat
  estimatedInputCost :: real

text \<open>The estimator has a constant of its own for the size of a batch.\<close>

definition BATCH_SIZE_estimate :: nat where
  "BATCH_SIZE_estimate = 20"

definition totalBatches_estimate :: "nat \<Rightarrow> nat" where
  "totalBatches_estimate n = (n + (BATCH_SIZE_estimate - 1)) div BATCH_SIZE_estimate"

definition currentChunk_estimate :: "row list \<Rightarrow> nat \<Rightarrow> row list" where
  "currentChunk_estimate dataRows i =
     take BATCH_SIZE_estimate (drop (i * BATCH_SIZE_estimate) dataRows)"

text \<open>Line 1398, and the test of line 1400: the batch is counted as a request.\<close>

definition itemsRequiringAiLookup_estimate :: "row list \<Rightarrow> row list" where
  "itemsRequiringAiLookup_estimate chunk =
     filter (\<lambda>r. \<not> isPlausibleUrl (cellAt r 2)) chunk"

definition estimatorCountsBatch :: "row list \<Rightarrow> nat \<Rightarrow> bool" where
  "estimatorCountsBatch dataRows i =
     (length (itemsRequiringAiLookup_estimate (currentChunk_estimate dataRows i)) > 0)"

text \<open>The body of the loop; the pair is \<^verbatim>\<open>totalEstimatedInputTokens\<close> and
  \<^verbatim>\<open>totalEstimatedApiRequests\<close>.\<close>

definition estimateBatch ::
  "client \<Rightarrow> row \<Rightarrow> row list \<Rightarrow> nat \<Rightarrow> nat \<times> nat \<Rightarrow> nat \<times> nat" where
  "estimateBatch genAI headerRow dataRows i totals =
     (if estimatorCountsBatch dataRows i
      then (fst totals
              + getTokenCountForModel
                  (countTokens genAI
                     (headerRow
                        # itemsRequiringAiLookup_estimate (currentChunk_estimate dataRows i))),
            snd totals + 1)
      else totals)"

text \<open>Lines 1422 to 1433: the grounding cost of the estimated requests on top of the
  requests of the session so far.\<close>

definition estimateGroundingCost :: "nat \<Rightarrow> nat \<Rightarrow> real" where
  "estimateGroundingCost totalApiRequestsMade totalEstimatedApiRequests =
     (let potentialTotalRequests = totalApiRequestsMade + totalEstimatedApiRequests
      in if potentialTotalRequests > FLASH_FREE_GROUNDING_REQUESTS_PER_DAY
         then (let billableRequests =
                     max 0 (int potentialTotalRequests
                              - int FLASH_FREE_GROUNDING_REQUESTS_PER_DAY)
                     - max 0 (int totalApiRequestsMade
                                - int FLASH_FREE_GROUNDING_REQUESTS_PER_DAY)
               in if billableRequests > 0
                  then (real_of_int billableRequests / 1000)
                         * FLASH_PRICE_GROUNDING_PER_THOUSAND_REQUESTS_AFTER_FREE_TIER
                  else 0)
         else 0)"

definition handleEstimateFullAiRunCost ::
  "client option \<Rightarrow> row list \<Rightarrow> nat \<Rightarrow> abort + PreRunEstimation" where
  "handleEstimateFullAiRunCost genAI dataForEstimation totalApiRequestsMade =
     (case genAI of
        None \<Rightarrow> Inl ApiKeyMissing
      | Some cl \<Rightarrow>
          if length dataForEstimation < 2 then Inl InvalidData
          else (let headerRow = hd dataForEstimation;
                    dataRows = tl dataForEstimation;
                    totals = fold (estimateBatch cl headerRow dataRows)
                               [0..<totalBatches_estimate (length dataRows)] (0, 0);
                    inputCost = (real (fst totals) / 1000000)
                                  * FLASH_PRICE_INPUT_PER_MILLION_TOKENS;
                    groundingCost = estimateGroundingCost totalApiRequestsMade (snd totals)
                in Inr \<lparr>inputTokens = fst totals, apiRequests = snd totals,
                        estimatedInputCost = inputCost + groundingCost\<rparr>))"

section \<open>The dossier run (index.tsx, lines 819 to 973 and 1158 to 1228)\<close>

text \<open>\<open>generateDossier genAI i r\<close> is what the service answers to attempt \<open>r\<close> for the data
  row at index \<open>i\<close>; \<open>countPromptTokens\<close> counts the tokens of the prompt built from the
  name, the URL and the description at hand.\<close>

datatype dossierReply = DossierThrows | DossierNoText | DossierText string "nat option"

record proClient =
  generateDossier :: "nat \<Rightarrow> nat \<Rightarrow> dossierReply"
  countPromptTokens :: "string \<Rightarrow> string \<Rightarrow> string \<Rightarrow> nat option"

definition MAX_PRO_RETRIES :: nat where
  "MAX_PRO_RETRIES = 1"

definition DESCRIPTION_COL_INDEX :: nat where
  "DESCRIPTION_COL_INDEX = 63"

text \<open>The data rows being edited, the counters of the operation as the callback updates
  them, and the log of the calls of \<^verbatim>\<open>generateContent\<close> (row index, attempt).\<close>

record dossierState =
  dossierRows :: "row list"
  statsInputTokens :: nat
  statsOutputTokens :: nat
  statsApiRequests :: nat
  statsEstimatedCost :: real
  dossierCalls :: "(nat \<times> nat) list"

text \<open>The loop \<^verbatim>\<open>while (retries <= MAX_PRO_RETRIES)\<close> of lines 932 to 971; \<open>None\<close> is the
  error thrown to the caller when the attempts are used up.\<close>

function dossierLoop ::
  "proClient \<Rightarrow> nat \<Rightarrow> nat \<Rightarrow> nat \<Rightarrow> dossierState \<Rightarrow> string option \<times> dossierState" where
  "dossierLoop genAI i input retries st =
     (if retries \<le> MAX_PRO_RETRIES
      then (let st1 = st\<lparr>dossierCalls := dossierCalls st @ [(i, retries)]\<rparr>
            in case generateDossier genAI i retries of
                 DossierText text tok \<Rightarrow>
                   (let output = getTokenCountForModel tok
                    in (Some text,
                        st1\<lparr>statsOutputTokens := statsOutputTokens st1 + output,
                            statsApiRequests := statsApiRequests st1 + 1,
                            statsEstimatedCost := statsEstimatedCost st1
                              + (calculateOperationCost input output 1 pro
                                 - calculateOperationCost input 0 1 pro)\<rparr>))
               | DossierThrows \<Rightarrow>
                   if retries + 1 > MAX_PRO_RETRIES then (None, st1)
                   else dossierLoop genAI i input (retries + 1) st1
               | DossierNoText \<Rightarrow>
                   if retries + 1 > MAX_PRO_RETRIES then (None, st1)
                   else dossierLoop genAI i input (retries + 1) st1)
      else (None, st))"
  by pat_completeness auto
termination
  by (relation "measure (\<lambda>(genAI, i, input, retries, st). MAX_PRO_RETRIES + 1 - retries)") auto

declare dossierLoop.simps [simp del]

definition generateDetailedDescriptionForOrganization ::
  "proClient \<Rightarrow> nat \<Rightarrow> string \<Rightarrow> string \<Rightarrow> string \<Rightarrow> dossierState
     \<Rightarrow> string option \<times> dossierState" where
  "generateDetailedDescriptionForOrganization genAI i orgName orgUrl existingDesc st =
     (let input = getTokenCountForModel (countPromptTokens genAI orgName orgUrl existingDesc);
          st1 = st\<lparr>statsInputTokens := statsInputTokens st + input,
                    statsEstimatedCost := statsEstimatedCost st
                      + calculateOperationCost input 0 1 pro\<rparr>
      in dossierLoop genAI i input 0 st1)"

text \<open>\<^verbatim>\<open>while (dataRows[i].length <= DESCRIPTION_COL_INDEX) dataRows[i].push('')\<close>\<close>

definition padToDescription :: "row \<Rightarrow> row" where
  "padToDescription r = r @ replicate (DESCRIPTION_COL_INDEX + 1 - length r) []"

text \<open>The body of the loop over the data rows (lines 1176 to 1218): a row without a name
  is passed over with \<^verbatim>\<open>continue\<close>; an error of the generation leaves the row as it is.\<close>

definition dossierRow :: "proClient \<Rightarrow> nat \<Rightarrow> dossierState \<Rightarrow> dossierState" where
  "dossierRow genAI i st =
     (let r = dossierRows st ! i;
          orgName = trim (cellAt r 0);
          orgUrl = trim (cellAt r 2);
          existingDesc = trim (cellAt r DESCRIPTION_COL_INDEX)
      in if orgName = [] then st
         else (case generateDetailedDescriptionForOrganization genAI i orgName orgUrl
                      existingDesc st of
                 (Some newDescription, st') \<Rightarrow>
                   st'\<lparr>dossierRows := (dossierRows st')
                         [i := (padToDescription (dossierRows st' ! i))
                                 [DESCRIPTION_COL_INDEX := newDescription]]\<rparr>
               | (None, st') \<Rightarrow> st'))"

record dossierOutcome =
  dossierDisplayData :: "row list"
  dossierStatus :: status
  dossierFinalState :: dossierState

definition handleGenerateFullDescriptions ::
  "proClient option \<Rightarrow> row list \<Rightarrow> abort + dossierOutcome" where
  "handleGenerateFullDescriptions genAI dataToProcess =
     (case genAI of
        None \<Rightarrow> Inl ApiKeyMissing
      | Some cl \<Rightarrow>
          if length dataToProcess < 2 then Inl InvalidData
          else (let headerRow = hd dataToProcess;
                    dataRows = tl dataToProcess;
                    st = fold (dossierRow cl) [0..<length dataRows]
                           \<lparr>dossierRows = dataRows, statsInputTokens = 0,
                            statsOutputTokens = 0, statsApiRequests = 0,
                            statsEstimatedCost = 0, dossierCalls = []\<rparr>
                in Inr \<lparr>dossierDisplayData = headerRow # dossierRows st,
                        dossierStatus = Completed,
                        dossierFinalState = st\<rparr>))"

section \<open>Row identity and example inputs\<close>

text \<open>An output row stands for the input row at the same position when it is that row,
  or that row padded to three cells with another cell 2; and a row whose cell 2 is a
  plausible URL is the input row itself.\<close>

definition rowPreserved :: "row \<Rightarrow> row \<Rightarrow> bool" where
  "rowPreserved original out =
     ((isPlausibleUrl (cellAt original 2) \<longrightarrow> out = original)
      \<and> (out = original \<or> out = (padTo3 original)[2 := cellAt out 2]))"

definition cleanerExample :: "row list" where
  "cleanerExample = [[''Name'', ''Type'', ''N/A''],
                     [''A'', ''n/a'', '' N/A ''],
                     [''B'', ''y'', ''not found here'']]"

definition exampleData :: "row list" where
  "exampleData = [[''Name'', ''Type'', ''Website URL''], [''A'', ''x'', []]]"

definition plausibleData :: "row list" where
  "plausibleData = [[''Name'', ''Type'', ''Website URL''], [''B'', ''y'', ''good.com'']]"

definition exampleAnswer :: "row list" where
  "exampleAnswer = [[''Name'', ''Type'', ''Website URL''], [''A'', ''y'', ''a.com'']]"

definition throwsThenAnswers :: client where
  "throwsThenAnswers =
     \<lparr>generateContent = (\<lambda>b r. if r = 0 then Throws else Text (Some 5) (Some exampleAnswer)),
      countTokens = (\<lambda>rows. Some 7)\<rparr>"

definition alwaysThrows :: client where
  "alwaysThrows = \<lparr>generateContent = (\<lambda>b r. Throws), countTokens = (\<lambda>rows. Some 7)\<rparr>"

definition alwaysAnswers :: proClient where
  "alwaysAnswers =
     \<lparr>generateDossier = (\<lambda>i r. DossierText ''dossier'' (Some 9)),
      countPromptTokens = (\<lambda>orgName orgUrl existingDesc. Some 4)\<rparr>"

definition namelessThenNamed :: "row list" where
  "namelessThenNamed = [[''Name'', ''Type''], [''  '', ''x''], [''Acme'', ''y'', ''acme.com'']]"




definition orderData :: "row list" where
  "orderData =
     [[''Name'', ''Type'', ''Website URL''],
      [''A'', ''x'', []], [''B'', ''y'', ''good.com''], [''C'']]
     @ map (\<lambda>c. [[c], ''p'', ''site.org'']) ''DEFGHIJKLMNOPQRST''
     @ [[''U'', ''u'', ''n/a'']]"

definition orderResult :: "row list" where
  "orderResult =
     [[''Name'', ''Type'', ''Website URL''],
      [''A'', ''x'', ''a.com''], [''B'', ''y'', ''good.com''], [''C'', [], ''c.com'']]
     @ map (\<lambda>c. [[c], ''p'', ''site.org'']) ''DEFGHIJKLMNOPQRST''
     @ [[''U'', ''u'', ''n/a'']]"

definition firstBatchOnly :: client where
  "firstBatchOnly =
     \<lparr>generateContent =
        (\<lambda>b r. if b = 1
               then Text (Some 5) (Some [[''Name'', ''Type'', ''Website URL''],
                                         [''A'', ''?'', ''a.com''], [''C'', ''?'', ''c.com'']])
               else Throws),
      countTokens = (\<lambda>rows. Some 7)\<rparr>"

section \<open>The cleaner, row by row\<close>

lemma empty_not_placeholder: "[] \<notin> set notFoundPlaceholders"
  by (simp add: notFoundPlaceholders_def toLowerCase_def)

lemma cleanRow_idem: "cleanRow (cleanRow r) = cleanRow r"
  by (simp add: cleanRow_def cellAt_def Let_def trim_def)

lemma clean_idem: "cleanAiNotFoundResponses (cleanAiNotFoundResponses data) = cleanAiNotFoundResponses data"
  by (cases data) (simp_all add: cleanAiNotFoundResponses_def cleanRow_idem)

lemma length_cleanRow: "length (cleanRow r) = length r"
  by (simp add: cleanRow_def Let_def)

lemma cleanRow_nth: "j < length r \<Longrightarrow> cleanRow r ! j =
   (if j = 2 \<and> toLowerCase (trim (r ! j)) \<in> set notFoundPlaceholders then [] else r ! j)"
  using empty_not_placeholder
  by (auto simp add: cleanRow_def Let_def cellAt_def toLowerCase_def)

lemma length_clean: "length (cleanAiNotFoundResponses data) = length data"
  by (cases data) (simp_all add: cleanAiNotFoundResponses_def)

lemma clean_nth: "i < length data \<Longrightarrow> cleanAiNotFoundResponses data ! i = (if i = 0 then data ! i else cleanRow (data ! i))"
  by (cases data; cases i) (simp_all add: cleanAiNotFoundResponses_def)

section \<open>The items of a chunk and the scatter\<close>

lemma items_set:
  "(i, r) \<in> set (itemsRequiringAiLookup chunk) \<longleftrightarrow>
     i < length chunk \<and> r = chunk ! i \<and> \<not> isPlausibleUrl (cellAt r 2)"
  by (auto simp add: itemsRequiringAiLookup_def in_set_zip intro!: exI [of _ i])

lemma items_distinct: "distinct (map fst (itemsRequiringAiLookup chunk))"
  unfolding itemsRequiringAiLookup_def
  by (rule distinct_map_filter) simp

lemma items_empty_iff:
  "itemsRequiringAiLookup chunk = [] \<longleftrightarrow> (\<forall>r \<in> set chunk. isPlausibleUrl (cellAt r 2))"
proof
  assume e: "itemsRequiringAiLookup chunk = []"
  show "\<forall>r \<in> set chunk. isPlausibleUrl (cellAt r 2)"
  proof
    fix r assume "r \<in> set chunk"
    then obtain i where "i < length chunk" "r = chunk ! i" by (auto simp add: in_set_conv_nth)
    then have "\<not> isPlausibleUrl (cellAt r 2) \<Longrightarrow> (i, r) \<in> set (itemsRequiringAiLookup chunk)"
      by (simp add: items_set)
    with e show "isPlausibleUrl (cellAt r 2)" by auto
  qed
next
  assume a: "\<forall>r \<in> set chunk. isPlausibleUrl (cellAt r 2)"
  then show "itemsRequiringAiLookup chunk = []"
    by (auto simp add: itemsRequiringAiLookup_def filter_empty_conv dest: set_zip_rightD)
qed

lemma merge_length: "length (fold scatter zs final) = length final"
  by (induction zs arbitrary: final) (auto simp add: scatter_def)

lemma merge_untouched:
  "k \<notin> (fst \<circ> fst) ` set zs \<Longrightarrow> fold scatter zs final ! k = final ! k"
  by (induction zs arbitrary: final) (auto simp add: scatter_def)

lemma merge_touched:
  "distinct (map (fst \<circ> fst) zs) \<Longrightarrow> ((i, r), a) \<in> set zs \<Longrightarrow> i < length final \<Longrightarrow>
     fold scatter zs final ! i = (padTo3 (final ! i))[2 := cellAt a 2]"
proof (induction zs arbitrary: final)
  case Nil
  then show ?case by simp
next
  case (Cons z zs)
  show ?case
  proof (cases "z = ((i, r), a)")
    case True
    with Cons.prems(1) have "i \<notin> (fst \<circ> fst) ` set zs" by auto
    then have "fold scatter zs (scatter z final) ! i = scatter z final ! i"
      by (rule merge_untouched)
    with True Cons.prems(3) show ?thesis by (simp add: scatter_def)
  next
    case False
    with Cons.prems(2) have m: "((i, r), a) \<in> set zs" by simp
    then have "i \<in> (fst \<circ> fst) ` set zs" by force
    with Cons.prems(1) have ne: "fst (fst z) \<noteq> i" by auto
    have len: "length (scatter z final) = length final"
      by (simp add: scatter_def split_beta)
    have same: "scatter z final ! i = final ! i"
      using ne by (simp add: scatter_def split_beta)
    have "fold scatter zs (scatter z final) ! i
            = (padTo3 (scatter z final ! i))[2 := cellAt a 2]"
      using Cons.IH [of "scatter z final"] Cons.prems(1) m Cons.prems(3) len
      by simp
    with same show ?thesis by simp
  qed
qed

lemma mergeRows_fold: "mergeRows chunk items aiRows = fold scatter (zip items aiRows) chunk"
  by (simp add: mergeRows_def)

lemma mergeRows_length: "length (mergeRows chunk items aiRows) = length chunk"
  by (simp add: mergeRows_fold merge_length)

lemma mergeRows_plausible:
  assumes "k < length chunk" "isPlausibleUrl (cellAt (chunk ! k) 2)"
  shows "mergeRows chunk (itemsRequiringAiLookup chunk) aiRows ! k = chunk ! k"
proof -
  have "k \<notin> (fst \<circ> fst) ` set (zip (itemsRequiringAiLookup chunk) aiRows)"
  proof
    assume "k \<in> (fst \<circ> fst) ` set (zip (itemsRequiringAiLookup chunk) aiRows)"
    then obtain r a where "((k, r), a) \<in> set (zip (itemsRequiringAiLookup chunk) aiRows)"
      by force
    then have "(k, r) \<in> set (itemsRequiringAiLookup chunk)" by (rule set_zip_leftD)
    with assms(2) show False by (auto simp add: items_set)
  qed
  then show ?thesis unfolding mergeRows_fold by (rule merge_untouched)
qed

lemma mergeRows_sent:
  assumes "length aiRows = length (itemsRequiringAiLookup chunk)"
    and "idx < length (itemsRequiringAiLookup chunk)"
  shows "mergeRows chunk (itemsRequiringAiLookup chunk) aiRows
           ! fst (itemsRequiringAiLookup chunk ! idx)
         = (padTo3 (chunk ! fst (itemsRequiringAiLookup chunk ! idx)))
             [2 := cellAt (aiRows ! idx) 2]"
proof -
  let ?items = "itemsRequiringAiLookup chunk"
  obtain i r where ir: "?items ! idx = (i, r)" by (cases "?items ! idx")
  have "(i, r) \<in> set ?items" using assms(2) ir by (metis nth_mem)
  then have il: "i < length chunk" by (simp add: items_set)
  have z: "((i, r), aiRows ! idx) \<in> set (zip ?items aiRows)"
    using assms ir by (auto simp add: in_set_zip intro!: exI [of _ idx])
  have d: "distinct (map (fst \<circ> fst) (zip ?items aiRows))"
  proof -
    have "map (fst \<circ> fst) (zip ?items aiRows) = map fst (map fst (zip ?items aiRows))" by simp
    also have "\<dots> = map fst ?items" using assms(1) by simp
    finally show ?thesis using items_distinct by simp
  qed
  show ?thesis unfolding mergeRows_fold ir using merge_touched [OF d z il] by simp
qed


lemma padTo3_length: "length (padTo3 r) = max 3 (length r)"
  by (auto simp add: padTo3_def)

section \<open>One attempt and the retry loop\<close>

lemma attempt_result:
  assumes "attempt genAI headerRow chunk items b r made st = (ok, made', st')"
  shows "ok = (\<not> attemptThrows genAI headerRow items b r)"
    and "generateContentCalls st' = generateContentCalls st @ [(b, r)]"
    and "runSkippedBatchNumbersLocal st' = runSkippedBatchNumbersLocal st"
    and "\<not> ok \<Longrightarrow> allProcessedDataRows st' = allProcessedDataRows st"
    and "ok \<Longrightarrow> \<exists>tok rows. generateContent genAI b r = Text tok (Some rows)
            \<and> length (aiProcessedRowsOnly headerRow rows) = length items
            \<and> allProcessedDataRows st' = allProcessedDataRows st
                 @ mergeRows chunk items (aiProcessedRowsOnly headerRow rows)"
    and "made \<Longrightarrow> made' \<and> currentRunOpApiRequests st' = currentRunOpApiRequests st"
    and "\<not> made \<Longrightarrow> currentRunOpApiRequests st'
           = currentRunOpApiRequests st + (if made' then 1 else 0)"
  using assms
  by (auto simp add: attempt_def attemptThrows_def countRequest_def Let_def
        split: reply.splits option.splits if_splits prod.splits)

lemma giveUp_result:
  "generateContentCalls (giveUp chunk b r made st) = generateContentCalls st"
  "runSkippedBatchNumbersLocal (giveUp chunk b r made st) = runSkippedBatchNumbersLocal st @ [b]"
  "allProcessedDataRows (giveUp chunk b r made st) = allProcessedDataRows st @ chunk"
  "currentRunOpApiRequests (giveUp chunk b r made st)
     = currentRunOpApiRequests st + (if \<not> made \<and> r = MAX_RETRIES + 1 then 1 else 0)"
  by (simp_all add: giveUp_def Let_def)

lemma retryLoop_all_fail:
  assumes "r \<le> MAX_RETRIES"
    and "\<forall>r'. r \<le> r' \<and> r' \<le> MAX_RETRIES \<longrightarrow> attemptThrows genAI headerRow items b r'"
  shows "generateContentCalls (retryLoop genAI headerRow chunk items b r made st)
           = generateContentCalls st @ map (Pair b) [r..<MAX_RETRIES + 1]
       \<and> allProcessedDataRows (retryLoop genAI headerRow chunk items b r made st)
           = allProcessedDataRows st @ chunk
       \<and> runSkippedBatchNumbersLocal (retryLoop genAI headerRow chunk items b r made st)
           = runSkippedBatchNumbersLocal st @ [b]
       \<and> currentRunOpApiRequests (retryLoop genAI headerRow chunk items b r made st)
           = currentRunOpApiRequests st + (if made then 0 else 1)"
  using assms
proof (induction genAI headerRow chunk items b r made st rule: retryLoop.induct)
  case (1 genAI headerRow chunk items b r made st)
  obtain ok made' st' where a: "attempt genAI headerRow chunk items b r made st = (ok, made', st')"
    by (cases "attempt genAI headerRow chunk items b r made st") auto
  have thr: "attemptThrows genAI headerRow items b r" using "1.prems" by simp
  note res = attempt_result [OF a]
  have nok: "\<not> ok" using res(1) thr by simp
  have api': "currentRunOpApiRequests st' + (if made' then 0 else 1)
               = currentRunOpApiRequests st + (if made then 0 else 1)"
    using res(6) res(7) by (cases made) auto
  show ?case
  proof (cases "r + 1 > MAX_RETRIES")
    case True
    then have req: "r = MAX_RETRIES" using "1.prems"(1) by simp
    have l: "retryLoop genAI headerRow chunk items b r made st = giveUp chunk b (r + 1) made' st'"
      using a nok True "1.prems"(1) by (subst retryLoop.simps) simp
    have u: "[r..<MAX_RETRIES + 1] = [r]" using req by simp
    show ?thesis unfolding l u using res(2,3) res(4) [OF nok] api' req
      by (auto simp add: giveUp_result split: if_splits)
  next
    case False
    have l: "retryLoop genAI headerRow chunk items b r made st
               = retryLoop genAI headerRow chunk items b (r + 1) made' st'"
      using a nok False "1.prems"(1) by (subst retryLoop.simps) simp
    have ih: "generateContentCalls (retryLoop genAI headerRow chunk items b (r + 1) made' st')
           = generateContentCalls st' @ map (Pair b) [r + 1..<MAX_RETRIES + 1]
       \<and> allProcessedDataRows (retryLoop genAI headerRow chunk items b (r + 1) made' st')
           = allProcessedDataRows st' @ chunk
       \<and> runSkippedBatchNumbersLocal (retryLoop genAI headerRow chunk items b (r + 1) made' st')
           = runSkippedBatchNumbersLocal st' @ [b]
       \<and> currentRunOpApiRequests (retryLoop genAI headerRow chunk items b (r + 1) made' st')
           = currentRunOpApiRequests st' + (if made' then 0 else 1)"
      using "1.IH" [OF "1.prems"(1) a [symmetric] refl nok] False "1.prems"(2) by simp
    have u: "[r..<MAX_RETRIES + 1] = r # [r + 1..<MAX_RETRIES + 1]"
      using "1.prems"(1) by (simp add: upt_conv_Cons)
    show ?thesis unfolding l u using ih res(2,3) res(4) [OF nok] api'
      by (auto split: if_splits)
  qed
qed

section \<open>The batches of a run\<close>

lemma rowPreserved_refl: "rowPreserved r r"
  by (simp add: rowPreserved_def)

lemma mergeRows_preserved:
  assumes "length aiRows = length (itemsRequiringAiLookup chunk)"
  shows "list_all2 rowPreserved chunk (mergeRows chunk (itemsRequiringAiLookup chunk) aiRows)"
proof (rule list_all2_all_nthI)
  show "length chunk = length (mergeRows chunk (itemsRequiringAiLookup chunk) aiRows)"
    by (simp add: mergeRows_length)
next
  fix k assume k: "k < length chunk"
  let ?items = "itemsRequiringAiLookup chunk"
  let ?out = "mergeRows chunk ?items aiRows ! k"
  show "rowPreserved (chunk ! k) ?out"
  proof (cases "isPlausibleUrl (cellAt (chunk ! k) 2)")
    case True
    then show ?thesis using mergeRows_plausible [OF k True] by (simp add: rowPreserved_refl)
  next
    case False
    with k have "(k, chunk ! k) \<in> set ?items" by (simp add: items_set)
    then obtain idx where idx: "idx < length ?items" "?items ! idx = (k, chunk ! k)"
      by (auto simp add: in_set_conv_nth)
    have o: "?out = (padTo3 (chunk ! k))[2 := cellAt (aiRows ! idx) 2]"
      using mergeRows_sent [OF assms idx(1)] idx(2) by simp
    have "cellAt ?out 2 = cellAt (aiRows ! idx) 2"
      unfolding o by (simp add: cellAt_def padTo3_length)
    with o False show ?thesis by (simp add: rowPreserved_def)
  qed
qed

lemma retryLoop_general:
  assumes "r \<le> MAX_RETRIES"
  shows "(\<exists>ys. allProcessedDataRows (retryLoop genAI headerRow chunk items b r made st)
                 = allProcessedDataRows st @ ys
              \<and> (ys = chunk \<or> (\<exists>aiRows. length aiRows = length items
                                   \<and> ys = mergeRows chunk items aiRows)))
       \<and> fst ` set (generateContentCalls (retryLoop genAI headerRow chunk items b r made st))
           = fst ` set (generateContentCalls st) \<union> {b}"
  using assms
proof (induction genAI headerRow chunk items b r made st rule: retryLoop.induct)
  case (1 genAI headerRow chunk items b r made st)
  obtain ok made' st' where a: "attempt genAI headerRow chunk items b r made st = (ok, made', st')"
    by (cases "attempt genAI headerRow chunk items b r made st") auto
  note res = attempt_result [OF a]
  show ?case
  proof (cases ok)
    case True
    have l: "retryLoop genAI headerRow chunk items b r made st = st'"
      using a True "1.prems" by (subst retryLoop.simps) simp
    from res(5) [OF True] res(2) show ?thesis unfolding l by auto
  next
    case nok: False
    show ?thesis
    proof (cases "r + 1 > MAX_RETRIES")
      case True
      have l: "retryLoop genAI headerRow chunk items b r made st
                 = giveUp chunk b (r + 1) made' st'"
        using a nok True "1.prems" by (subst retryLoop.simps) simp
      show ?thesis unfolding l using res(2) res(4) [OF nok] by (simp add: giveUp_result)
    next
      case False
      have l: "retryLoop genAI headerRow chunk items b r made st
                 = retryLoop genAI headerRow chunk items b (r + 1) made' st'"
        using a nok False "1.prems" by (subst retryLoop.simps) simp
      have "r + 1 \<le> MAX_RETRIES" using False by simp
      from "1.IH" [OF "1.prems" a [symmetric] refl nok False this]
      show ?thesis unfolding l using res(2) res(4) [OF nok] by auto
    qed
  qed
qed

lemma processBatch_general:
  "(\<exists>ys. allProcessedDataRows (processBatch genAI headerRow dataRows i st)
           = allProcessedDataRows st @ ys
         \<and> list_all2 rowPreserved (currentChunk dataRows i) ys)
   \<and> fst ` set (generateContentCalls (processBatch genAI headerRow dataRows i st))
       = fst ` set (generateContentCalls st)
           \<union> (if itemsRequiringAiLookup (currentChunk dataRows i) = [] then {} else {i + 1})"
proof (cases "itemsRequiringAiLookup (currentChunk dataRows i) = []")
  case True
  then show ?thesis
    by (simp add: processBatch_def Let_def list_all2_refl rowPreserved_refl)
next
  case False
  let ?chunk = "currentChunk dataRows i"
  let ?items = "itemsRequiringAiLookup ?chunk"
  let ?st1 = "st\<lparr>currentRunOpInputTokens := currentRunOpInputTokens st
                 + getTokenCountForModel (countTokens genAI (headerRow # map snd ?items))\<rparr>"
  have p: "processBatch genAI headerRow dataRows i st
             = retryLoop genAI headerRow ?chunk ?items (i + 1) 0 False ?st1"
    using False by (simp add: processBatch_def Let_def)
  have "0 \<le> MAX_RETRIES" by simp
  from retryLoop_general [OF this, of genAI headerRow ?chunk ?items "i + 1" False ?st1]
  obtain ys where ys: "allProcessedDataRows (retryLoop genAI headerRow ?chunk ?items (i + 1) 0 False ?st1)
                 = allProcessedDataRows ?st1 @ ys"
     "ys = ?chunk \<or> (\<exists>aiRows. length aiRows = length ?items \<and> ys = mergeRows ?chunk ?items aiRows)"
    and c: "fst ` set (generateContentCalls (retryLoop genAI headerRow ?chunk ?items (i + 1) 0 False ?st1))
           = fst ` set (generateContentCalls ?st1) \<union> {i + 1}"
    by blast
  have "list_all2 rowPreserved ?chunk ys"
    using ys(2) by (auto simp add: list_all2_refl rowPreserved_refl mergeRows_preserved)
  with ys(1) c False show ?thesis unfolding p by simp
qed

lemma take_next_chunk:
  "take (Suc k * BATCH_SIZE) dataRows = take (k * BATCH_SIZE) dataRows @ currentChunk dataRows k"
proof -
  have e: "Suc k * BATCH_SIZE = k * BATCH_SIZE + BATCH_SIZE" by simp
  show ?thesis by (simp only: e take_add currentChunk_def)
qed

lemma run_fold_rows:
  "\<exists>ys. allProcessedDataRows (fold (processBatch genAI headerRow dataRows) [0..<k] st)
           = allProcessedDataRows st @ ys
       \<and> list_all2 rowPreserved (take (k * BATCH_SIZE) dataRows) ys"
proof (induction k)
  case 0
  then show ?case by simp
next
  case (Suc k)
  let ?s = "fold (processBatch genAI headerRow dataRows) [0..<k] st"
  from Suc obtain ys where ys: "allProcessedDataRows ?s = allProcessedDataRows st @ ys"
    "list_all2 rowPreserved (take (k * BATCH_SIZE) dataRows) ys" by blast
  from processBatch_general [of genAI headerRow dataRows k ?s]
  obtain zs where zs: "allProcessedDataRows (processBatch genAI headerRow dataRows k ?s)
           = allProcessedDataRows ?s @ zs"
    "list_all2 rowPreserved (currentChunk dataRows k) zs" by blast
  have "list_all2 rowPreserved (take (Suc k * BATCH_SIZE) dataRows) (ys @ zs)"
    unfolding take_next_chunk using ys(2) zs(2) by (rule list_all2_appendI)
  with ys(1) zs(1) show ?case by (intro exI [of _ "ys @ zs"]) simp
qed

lemma run_fold_calls:
  "fst ` set (generateContentCalls (fold (processBatch genAI headerRow dataRows) [0..<k] st))
     = fst ` set (generateContentCalls st)
         \<union> {i + 1 | i. i < k \<and> itemsRequiringAiLookup (currentChunk dataRows i) \<noteq> []}"
proof (induction k)
  case 0
  then show ?case by simp
next
  case (Suc k)
  let ?s = "fold (processBatch genAI headerRow dataRows) [0..<k] st"
  have "{i + 1 | i. i < Suc k \<and> itemsRequiringAiLookup (currentChunk dataRows i) \<noteq> []}
          = {i + 1 | i. i < k \<and> itemsRequiringAiLookup (currentChunk dataRows i) \<noteq> []}
              \<union> (if itemsRequiringAiLookup (currentChunk dataRows k) = [] then {} else {k + 1})"
    by (auto simp add: less_Suc_eq)
  with Suc processBatch_general [of genAI headerRow dataRows k ?s]
  show ?case by (simp add: Un_assoc)
qed

lemma totalBatches_covers: "n \<le> totalBatches n * BATCH_SIZE"
  by (simp add: totalBatches_def BATCH_SIZE_def)

section \<open>Claims on the classifier, the cleaner and the cost\<close>

text \<open>
  C9. \<open>isPlausibleUrl\<close> is a function of its string argument alone, with a value on every
  string (a HOL function is both by construction), and it rejects \<open>gmail.com\<close>, the empty
  string and \<open>user@gmail.com\<close>, and accepts \<open>example.com\<close>.
\<close>

theorem C9_isPlausibleUrl_examples:
  "isPlausibleUrl ''gmail.com'' = False
   \<and> isPlausibleUrl ''example.com'' = True
   \<and> isPlausibleUrl [] = False
   \<and> isPlausibleUrl ''user@gmail.com'' = False"
  by code_simp

text \<open>
  C8. Cleaning twice is cleaning once. The cleaned data has the rows and the cells of the
  data, and the cell \<open>j\<close> of row \<open>i\<close> is blank exactly when it is cell 2 of a data row
  (\<open>0 < i\<close>) whose trimmed, lowercased value is one of the placeholders; every other cell,
  the header row included, keeps its value. A value that only contains a placeholder is
  not one of them and stays.
\<close>

theorem C8_cleaner_idempotent_exact:
  "cleanAiNotFoundResponses (cleanAiNotFoundResponses data) = cleanAiNotFoundResponses data
   \<and> length (cleanAiNotFoundResponses data) = length data
   \<and> (\<forall>i<length data.
          length (cleanAiNotFoundResponses data ! i) = length (data ! i)
          \<and> (\<forall>j<length (data ! i).
                 cleanAiNotFoundResponses data ! i ! j
                   = (if 0 < i \<and> j = 2
                         \<and> toLowerCase (trim (data ! i ! j)) \<in> set notFoundPlaceholders
                      then [] else data ! i ! j)))"
  by (simp add: clean_idem length_clean clean_nth length_cleanRow cleanRow_nth)

theorem C8_cleaner_witness:
  "(1::nat) < length cleanerExample \<and> (2::nat) < length (cleanerExample ! 1)
   \<and> (2::nat) < length cleanerExample \<and> (2::nat) < length (cleanerExample ! 2)
   \<and> cleanAiNotFoundResponses (cleanAiNotFoundResponses cleanerExample)
       = cleanAiNotFoundResponses cleanerExample
   \<and> cleanAiNotFoundResponses cleanerExample ! 1 ! 2 = []
   \<and> cleanAiNotFoundResponses cleanerExample ! 1 ! 1 = ''n/a''
   \<and> cleanAiNotFoundResponses cleanerExample ! 2 ! 2 = ''not found here''"
proof -
  have v: "toLowerCase (trim '' N/A '') \<in> set notFoundPlaceholders"
    "toLowerCase (trim ''not found here'') \<notin> set notFoundPlaceholders"
    by code_simp+
  have i1: "(1::nat) < length cleanerExample" and i2: "(2::nat) < length cleanerExample"
    by (simp_all add: cleanerExample_def)
  have j1: "(2::nat) < length (cleanerExample ! 1)" and j2: "(2::nat) < length (cleanerExample ! 2)"
    and k1: "(1::nat) < length (cleanerExample ! 1)"
    by (simp_all add: cleanerExample_def)
  have e: "cleanerExample ! 1 ! 2 = '' N/A ''" "cleanerExample ! 2 ! 2 = ''not found here''"
    "cleanerExample ! 1 ! 1 = ''n/a''"
    by (simp_all add: cleanerExample_def)
  note t = C8_cleaner_idempotent_exact [of cleanerExample]
  note rows = conjunct2 [OF conjunct2 [OF t], rule_format]
  note r1 = conjunct2 [OF rows [OF i1], rule_format]
  note r2 = conjunct2 [OF rows [OF i2], rule_format]
  have a: "cleanAiNotFoundResponses cleanerExample ! 1 ! 2 = []"
    using r1 [OF j1] v(1) e(1) by simp
  have b: "cleanAiNotFoundResponses cleanerExample ! 1 ! 1 = ''n/a''"
    using r1 [OF k1] e(3) by simp
  have c: "cleanAiNotFoundResponses cleanerExample ! 2 ! 2 = ''not found here''"
    using r2 [OF j2] v(2) e(2) by simp
  show ?thesis using i1 i2 j1 j2 a b c conjunct1 [OF t] by simp
qed

text \<open>
  C6, as the specification states it, fails: the cost of an operation has no grounding
  term. With 2500 requests and no tokens the formula of the claim gives 35, the code 0.
\<close>

theorem C6_grounding_counterexample:
  "calculateOperationCost 0 0 2500 flash
     \<noteq> real 0 / 1000000 * 0.15 + real 0 / 1000000 * 3.50
         + real_of_int (max 0 (2500 - 1500)) / 1000 * 35"
  by simp

text \<open>
  C6, amended. For the flash model the cost of an operation is the input tokens per
  million times 0.15 plus the output tokens per million times 3.50, with no grounding
  term: the number of requests does not enter it.
\<close>

theorem C6_operation_cost_flash:
  "calculateOperationCost inTokens outTokens requests flash
     = real inTokens / 1000000 * 0.15 + real outTokens / 1000000 * 3.50
   \<and> calculateOperationCost inTokens outTokens requests flash
     = calculateOperationCost inTokens outTokens otherRequests flash"
  by (simp add: FLASH_PRICE_INPUT_PER_MILLION_TOKENS_def
        FLASH_PRICE_OUTPUT_THINKING_PER_MILLION_TOKENS_def)

section \<open>Claims on the dossier run\<close>

text \<open>
  C5, as the specification states it, fails: a run over one data row whose name is blank
  ends with the status \<open>Completed\<close>, the row as it was and no call made.
\<close>

theorem C5_nameless_row_counterexample:
  "handleGenerateFullDescriptions (Some alwaysAnswers) [[''Name'', ''Type''], [''  '', ''x'']] =
     Inr \<lparr>dossierDisplayData = [[''Name'', ''Type''], [''  '', ''x'']],
          dossierStatus = Completed,
          dossierFinalState =
            \<lparr>dossierRows = [[''  '', ''x'']], statsInputTokens = 0, statsOutputTokens = 0,
             statsApiRequests = 0, statsEstimatedCost = 0, dossierCalls = []\<rparr>\<rparr>"
  by code_simp

lemma dossierLoop_first:
  assumes "dossierLoop genAI i input 0 st = (res, st')"
  shows "dossierRows st' = dossierRows st
       \<and> (i, 0) \<in> set (dossierCalls st')
       \<and> set (dossierCalls st) \<subseteq> set (dossierCalls st')
       \<and> fst ` set (dossierCalls st') = fst ` set (dossierCalls st) \<union> {i}"
  using assms
  by (auto simp add: dossierLoop.simps [of _ _ _ 0] dossierLoop.simps [of _ _ _ "Suc 0"]
        MAX_PRO_RETRIES_def Let_def split: dossierReply.splits)

lemma padToDescription_name: "cellAt ((padToDescription r)[DESCRIPTION_COL_INDEX := d]) 0 = cellAt r 0"
  by (auto simp add: cellAt_def padToDescription_def DESCRIPTION_COL_INDEX_def nth_append)

lemma dossierRow_nameless:
  "trim (cellAt (dossierRows st ! i) 0) = [] \<Longrightarrow> dossierRow genAI i st = st"
  by (simp add: dossierRow_def Let_def)

lemma dossierRow_named:
  assumes "trim (cellAt (dossierRows st ! i) 0) \<noteq> []"
  shows "length (dossierRows (dossierRow genAI i st)) = length (dossierRows st)
       \<and> (\<forall>j. j \<noteq> i \<longrightarrow> dossierRows (dossierRow genAI i st) ! j = dossierRows st ! j)
       \<and> cellAt (dossierRows (dossierRow genAI i st) ! i) 0 = cellAt (dossierRows st ! i) 0
       \<and> (i, 0) \<in> set (dossierCalls (dossierRow genAI i st))
       \<and> set (dossierCalls st) \<subseteq> set (dossierCalls (dossierRow genAI i st))
       \<and> fst ` set (dossierCalls (dossierRow genAI i st)) = fst ` set (dossierCalls st) \<union> {i}"
proof -
  let ?r = "dossierRows st ! i"
  let ?input = "getTokenCountForModel (countPromptTokens genAI (trim (cellAt ?r 0))
                  (trim (cellAt ?r 2)) (trim (cellAt ?r DESCRIPTION_COL_INDEX)))"
  let ?st1 = "st\<lparr>statsInputTokens := statsInputTokens st + ?input,
                    statsEstimatedCost := statsEstimatedCost st
                      + calculateOperationCost ?input 0 1 pro\<rparr>"
  obtain res st' where l: "dossierLoop genAI i ?input 0 ?st1 = (res, st')"
    by (cases "dossierLoop genAI i ?input 0 ?st1") auto
  note e = dossierLoop_first [OF l]
  have rows: "dossierRows st' = dossierRows st" using e by simp
  have calls: "(i, 0) \<in> set (dossierCalls st')"
    "set (dossierCalls st) \<subseteq> set (dossierCalls st')"
    "fst ` set (dossierCalls st') = fst ` set (dossierCalls st) \<union> {i}"
    using e by simp_all
  show ?thesis
  proof (cases res)
    case None
    then have "dossierRow genAI i st = st'"
      using assms l by (simp add: dossierRow_def Let_def generateDetailedDescriptionForOrganization_def)
    with rows calls show ?thesis by simp
  next
    case (Some d)
    then have d: "dossierRow genAI i st
            = st'\<lparr>dossierRows := (dossierRows st')
                         [i := (padToDescription (dossierRows st' ! i))
                                 [DESCRIPTION_COL_INDEX := d]]\<rparr>"
      using assms l by (simp add: dossierRow_def Let_def generateDetailedDescriptionForOrganization_def)
    show ?thesis
    proof (cases "i < length (dossierRows st)")
      case True
      with rows calls show ?thesis unfolding d by (simp add: padToDescription_name)
    next
      case False
      with rows calls show ?thesis unfolding d by (simp add: list_update_beyond)
    qed
  qed
qed

lemma dossier_fold:
  assumes "k \<le> length (dossierRows st0)" and "dossierCalls st0 = []"
  shows "length (dossierRows (fold (dossierRow genAI) [0..<k] st0)) = length (dossierRows st0)
     \<and> (\<forall>j<length (dossierRows st0). cellAt (dossierRows (fold (dossierRow genAI) [0..<k] st0) ! j) 0 = cellAt ((dossierRows st0) ! j) 0)
     \<and> (\<forall>j<length (dossierRows st0). trim (cellAt ((dossierRows st0) ! j) 0) = [] \<longrightarrow>
            dossierRows (fold (dossierRow genAI) [0..<k] st0) ! j = (dossierRows st0) ! j)
     \<and> fst ` set (dossierCalls (fold (dossierRow genAI) [0..<k] st0))
          = {j. j < k \<and> trim (cellAt ((dossierRows st0) ! j) 0) \<noteq> []}
     \<and> (\<forall>j<k. trim (cellAt ((dossierRows st0) ! j) 0) \<noteq> [] \<longrightarrow>
            (j, 0) \<in> set (dossierCalls (fold (dossierRow genAI) [0..<k] st0)))"
  using assms
proof (induction k)
  case 0
  then show ?case by simp
next
  case (Suc k)
  let ?s = "fold (dossierRow genAI) [0..<k] st0"
  have k: "k < length (dossierRows st0)" using Suc.prems by simp
  from Suc.IH Suc.prems have ih: "length (dossierRows ?s) = length (dossierRows st0)"
    "\<forall>j<length (dossierRows st0). cellAt (dossierRows ?s ! j) 0 = cellAt ((dossierRows st0) ! j) 0"
    "\<forall>j<length (dossierRows st0). trim (cellAt ((dossierRows st0) ! j) 0) = [] \<longrightarrow> dossierRows ?s ! j = (dossierRows st0) ! j"
    "fst ` set (dossierCalls ?s) = {j. j < k \<and> trim (cellAt ((dossierRows st0) ! j) 0) \<noteq> []}"
    "\<forall>j<k. trim (cellAt ((dossierRows st0) ! j) 0) \<noteq> [] \<longrightarrow> (j, 0) \<in> set (dossierCalls ?s)"
    by simp_all
  have f: "fold (dossierRow genAI) [0..<Suc k] st0
             = dossierRow genAI k ?s" by simp
  have nm: "cellAt (dossierRows ?s ! k) 0 = cellAt ((dossierRows st0) ! k) 0" using ih(2) k by simp
  show ?case
  proof (cases "trim (cellAt ((dossierRows st0) ! k) 0) = []")
    case True
    then have "dossierRow genAI k ?s = ?s" using nm by (simp add: dossierRow_nameless)
    then show ?thesis unfolding f using ih True by (auto simp add: less_Suc_eq)
  next
    case False
    then have "trim (cellAt (dossierRows ?s ! k) 0) \<noteq> []" using nm by simp
    note n = dossierRow_named [OF this, of genAI]
    show ?thesis unfolding f using ih False n k
      by (auto simp add: less_Suc_eq)
  qed
qed

text \<open>
  C5, amended. A run over data with a header and at least one row ends with the status
  \<open>Completed\<close> and returns as many rows as it was given. A data row without an organization
  name is passed over: the log holds no request for it, at any attempt, and the row is
  returned as it was. The run goes on: every data row that has a name, before or after a
  row without one, has its request in the log.
\<close>

theorem C5_nameless_row_skipped:
  assumes "2 \<le> length dataToProcess"
  shows "\<exists>res. handleGenerateFullDescriptions (Some genAI) dataToProcess = Inr res
           \<and> dossierStatus res = Completed
           \<and> length (dossierDisplayData res) = length dataToProcess
           \<and> (\<forall>i<length (tl dataToProcess).
                 (trim (cellAt (tl dataToProcess ! i) 0) = [] \<longrightarrow>
                    (\<forall>r. (i, r) \<notin> set (dossierCalls (dossierFinalState res)))
                    \<and> tl (dossierDisplayData res) ! i = tl dataToProcess ! i)
               \<and> (trim (cellAt (tl dataToProcess ! i) 0) \<noteq> [] \<longrightarrow>
                    (i, 0) \<in> set (dossierCalls (dossierFinalState res))))"
proof -
  let ?d = "tl dataToProcess"
  let ?init = "\<lparr>dossierRows = ?d, statsInputTokens = 0, statsOutputTokens = 0,
               statsApiRequests = 0, statsEstimatedCost = 0, dossierCalls = []\<rparr>"
  let ?final = "fold (dossierRow genAI) [0..<length ?d] ?init"
  have a: "length ?d \<le> length (dossierRows ?init)" and b: "dossierCalls ?init = []"
    by simp_all
  have r: "dossierRows ?init = ?d" by simp
  note f = dossier_fold [OF a b, of genAI, unfolded r]
  have len: "length (dossierRows ?final) = length ?d" using f by blast
  have same: "\<forall>j<length ?d. trim (cellAt (?d ! j) 0) = [] \<longrightarrow> dossierRows ?final ! j = ?d ! j"
    using f by blast
  have callsI: "fst ` set (dossierCalls ?final) = {j. j < length ?d \<and> trim (cellAt (?d ! j) 0) \<noteq> []}"
    using f by blast
  have called: "\<forall>j<length ?d. trim (cellAt (?d ! j) 0) \<noteq> [] \<longrightarrow> (j, 0) \<in> set (dossierCalls ?final)"
    using f by blast
  have none: "\<forall>j<length ?d. trim (cellAt (?d ! j) 0) = [] \<longrightarrow> (\<forall>r. (j, r) \<notin> set (dossierCalls ?final))"
  proof (intro allI impI notI)
    fix j r assume "j < length ?d" and e: "trim (cellAt (?d ! j) 0) = []"
      and "(j, r) \<in> set (dossierCalls ?final)"
    then have "j \<in> fst ` set (dossierCalls ?final)" by force
    with e show False unfolding callsI by simp
  qed
  show ?thesis
    using assms len same called none
    by (simp add: handleGenerateFullDescriptions_def Let_def)
qed

theorem C5_nameless_row_witness:
  "2 \<le> length namelessThenNamed
   \<and> handleGenerateFullDescriptions (Some alwaysAnswers) namelessThenNamed
       = Inr \<lparr>dossierDisplayData =
                [[''Name'', ''Type''], [''  '', ''x''],
                 ([''Acme'', ''y'', ''acme.com''] @ replicate 60 []) @ [''dossier'']],
              dossierStatus = Completed,
              dossierFinalState =
                \<lparr>dossierRows =
                   [[''  '', ''x''],
                    ([''Acme'', ''y'', ''acme.com''] @ replicate 60 []) @ [''dossier'']],
                 statsInputTokens = 4, statsOutputTokens = 9, statsApiRequests = 1,
                 statsEstimatedCost = calculateOperationCost 4 9 1 pro,
                 dossierCalls = [(1, 0)]\<rparr>\<rparr>
   \<and> trim (cellAt (tl namelessThenNamed ! 0) 0) = []
   \<and> trim (cellAt (tl namelessThenNamed ! 1) 0) \<noteq> []
   \<and> (\<exists>res. handleGenerateFullDescriptions (Some alwaysAnswers) namelessThenNamed = Inr res
           \<and> dossierStatus res = Completed
           \<and> length (dossierDisplayData res) = length namelessThenNamed
           \<and> (\<forall>i<length (tl namelessThenNamed).
                 (trim (cellAt (tl namelessThenNamed ! i) 0) = [] \<longrightarrow>
                    (\<forall>r. (i, r) \<notin> set (dossierCalls (dossierFinalState res)))
                    \<and> tl (dossierDisplayData res) ! i = tl namelessThenNamed ! i)
               \<and> (trim (cellAt (tl namelessThenNamed ! i) 0) \<noteq> [] \<longrightarrow>
                    (i, 0) \<in> set (dossierCalls (dossierFinalState res)))))"
proof -
  have h: "2 \<le> length namelessThenNamed" by (simp add: namelessThenNamed_def)
  have v: "handleGenerateFullDescriptions (Some alwaysAnswers) namelessThenNamed
       = Inr \<lparr>dossierDisplayData =
                [[''Name'', ''Type''], [''  '', ''x''],
                 ([''Acme'', ''y'', ''acme.com''] @ replicate 60 []) @ [''dossier'']],
              dossierStatus = Completed,
              dossierFinalState =
                \<lparr>dossierRows =
                   [[''  '', ''x''],
                    ([''Acme'', ''y'', ''acme.com''] @ replicate 60 []) @ [''dossier'']],
                 statsInputTokens = 4, statsOutputTokens = 9, statsApiRequests = 1,
                 statsEstimatedCost = calculateOperationCost 4 9 1 pro,
                 dossierCalls = [(1, 0)]\<rparr>\<rparr>"
    by code_simp
  have n0: "trim (cellAt (tl namelessThenNamed ! 0) 0) = []" by code_simp
  have n1: "trim (cellAt (tl namelessThenNamed ! 1) 0) \<noteq> []" by code_simp
  show ?thesis
    by (rule conjI [OF h conjI [OF v conjI [OF n0 conjI [OF n1 C5_nameless_row_skipped [OF h]]]]])
qed

section \<open>Claims on the URL-finding run\<close>

text \<open>
  C1. The counter of requests should go up by one for every batch that needs a lookup.
  Here the one batch needs a lookup, the first call of \<open>generateContent\<close> throws and the
  second answers with the rows asked for: the batch succeeds, two calls were made, and the
  counter is still 0.
\<close>

theorem C1_retry_success_not_counted:
  "handleFindUrlsWithAi (Some throwsThenAnswers) exampleData =
     Inr \<lparr>displayData = [[''Name'', ''Type'', ''Website URL''], [''A'', ''x'', ''a.com'']],
          opStatus = Completed,
          opEstimatedCost = calculateOperationCost 7 5 0 flash,
          finalState =
            \<lparr>currentRunOpInputTokens = 7, currentRunOpOutputTokens = 5,
             currentRunOpApiRequests = 0, runSkippedBatchNumbersLocal = [],
             allProcessedDataRows = [[''A'', ''x'', ''a.com'']],
             generateContentCalls = [(1, 0), (1, 1)]\<rparr>\<rparr>"
  by code_simp

lemma upt_retries: "[0..<MAX_RETRIES + 1] = [0, 1, 2, 3]"
  by code_simp

text \<open>
  C2. A batch that needs a lookup and whose every attempt ends in the \<^verbatim>\<open>catch\<close> block: the
  run calls \<open>generateContent\<close> for it \<open>MAX_RETRIES + 1 = 4\<close> times (attempts 0 to 3), then
  appends the rows of the chunk as they were to the accumulator and the number of the batch,
  once, to the list of skipped batches.
\<close>

theorem C2_retry_bound:
  assumes "itemsRequiringAiLookup (currentChunk dataRows i) \<noteq> []"
    and "list_all (attemptThrows genAI headerRow
                     (itemsRequiringAiLookup (currentChunk dataRows i)) (i + 1))
           [0..<MAX_RETRIES + 1]"
  shows "MAX_RETRIES + 1 = 4
     \<and> generateContentCalls (processBatch genAI headerRow dataRows i st)
         = generateContentCalls st @ [(i + 1, 0), (i + 1, 1), (i + 1, 2), (i + 1, 3)]
     \<and> allProcessedDataRows (processBatch genAI headerRow dataRows i st)
         = allProcessedDataRows st @ currentChunk dataRows i
     \<and> runSkippedBatchNumbersLocal (processBatch genAI headerRow dataRows i st)
         = runSkippedBatchNumbersLocal st @ [i + 1]"
proof -
  let ?chunk = "currentChunk dataRows i"
  let ?items = "itemsRequiringAiLookup ?chunk"
  let ?st1 = "st\<lparr>currentRunOpInputTokens := currentRunOpInputTokens st
                 + getTokenCountForModel (countTokens genAI (headerRow # map snd ?items))\<rparr>"
  have p: "processBatch genAI headerRow dataRows i st
             = retryLoop genAI headerRow ?chunk ?items (i + 1) 0 False ?st1"
    using assms(1) by (simp add: processBatch_def Let_def)
  have f: "\<forall>r'. 0 \<le> r' \<and> r' \<le> MAX_RETRIES \<longrightarrow> attemptThrows genAI headerRow ?items (i + 1) r'"
  proof (intro allI impI)
    fix r' assume "0 \<le> r' \<and> r' \<le> MAX_RETRIES"
    then have "r' \<in> set [0..<MAX_RETRIES + 1]" by auto
    with assms(2) show "attemptThrows genAI headerRow ?items (i + 1) r'"
      unfolding list_all_iff by blast
  qed
  have z: "0 \<le> MAX_RETRIES" by simp
  note l = retryLoop_all_fail [OF z f, of ?chunk False ?st1, unfolded upt_retries]
  have m: "MAX_RETRIES + 1 = 4" by (simp add: MAX_RETRIES_def)
  show ?thesis unfolding p using l m by simp
qed


theorem C2_retry_bound_witness:
  "itemsRequiringAiLookup (currentChunk (tl exampleData) 0) \<noteq> []
   \<and> list_all (attemptThrows alwaysThrows (hd exampleData)
                 (itemsRequiringAiLookup (currentChunk (tl exampleData) 0)) (0 + 1))
        [0..<MAX_RETRIES + 1]
   \<and> generateContentCalls (processBatch alwaysThrows (hd exampleData) (tl exampleData) 0
                            initialRunState)
       = [(1, 0), (1, 1), (1, 2), (1, 3)]
   \<and> allProcessedDataRows (processBatch alwaysThrows (hd exampleData) (tl exampleData) 0
                             initialRunState)
       = [[''A'', ''x'', []]]
   \<and> runSkippedBatchNumbersLocal (processBatch alwaysThrows (hd exampleData) (tl exampleData) 0
                                   initialRunState)
       = [1]"
proof -
  have h1: "itemsRequiringAiLookup (currentChunk (tl exampleData) 0) \<noteq> []"
    by code_simp
  have h2: "list_all (attemptThrows alwaysThrows (hd exampleData)
                 (itemsRequiringAiLookup (currentChunk (tl exampleData) 0)) (0 + 1))
        [0..<MAX_RETRIES + 1]"
    by code_simp
  have c: "currentChunk (tl exampleData) 0 = [[''A'', ''x'', []]]"
    by code_simp
  from C2_retry_bound [OF h1 h2, of initialRunState] h1 h2
  show ?thesis by (simp add: c initialRunState_def)
qed

text \<open>
  C4. A batch whose rows all have a plausible URL in cell 2: its step changes nothing in
  the state but the accumulator, which gets the rows of the chunk as they are; the log of
  calls stays as it was, and the log of the whole run holds no call for that batch.
\<close>

theorem C4_no_call_batch:
  assumes "list_all (\<lambda>r. isPlausibleUrl (cellAt r 2)) (currentChunk dataRows i)"
  shows "processBatch genAI headerRow dataRows i st
           = st\<lparr>allProcessedDataRows := allProcessedDataRows st @ currentChunk dataRows i\<rparr>
     \<and> generateContentCalls (processBatch genAI headerRow dataRows i st)
         = generateContentCalls st
     \<and> (\<forall>r. (i + 1, r) \<notin> set (generateContentCalls (runBatches genAI headerRow dataRows)))"
proof -
  have e: "itemsRequiringAiLookup (currentChunk dataRows i) = []"
    using assms by (simp add: items_empty_iff list_all_iff)
  then have p: "processBatch genAI headerRow dataRows i st
           = st\<lparr>allProcessedDataRows := allProcessedDataRows st @ currentChunk dataRows i\<rparr>"
    by (simp add: processBatch_def Let_def)
  have r: "(i + 1, r) \<notin> set (generateContentCalls (runBatches genAI headerRow dataRows))" for r
  proof
    assume "(i + 1, r) \<in> set (generateContentCalls (runBatches genAI headerRow dataRows))"
    then have "i + 1 \<in> fst ` set (generateContentCalls (runBatches genAI headerRow dataRows))"
      by force
    then show False
      unfolding runBatches_def run_fold_calls using e by (simp add: initialRunState_def)
  qed
  show ?thesis using p r by simp
qed

theorem C4_no_call_batch_witness:
  "list_all (\<lambda>r. isPlausibleUrl (cellAt r 2)) (currentChunk (tl plausibleData) 0)
   \<and> processBatch alwaysThrows (hd plausibleData) (tl plausibleData) 0 initialRunState
       = initialRunState\<lparr>allProcessedDataRows := [[''B'', ''y'', ''good.com'']]\<rparr>
   \<and> generateContentCalls
         (processBatch alwaysThrows (hd plausibleData) (tl plausibleData) 0 initialRunState) = []
   \<and> (0 + 1, 0) \<notin> set (generateContentCalls
                            (runBatches alwaysThrows (hd plausibleData) (tl plausibleData)))"
proof -
  have h: "list_all (\<lambda>r. isPlausibleUrl (cellAt r 2)) (currentChunk (tl plausibleData) 0)"
    by code_simp
  have c: "currentChunk (tl plausibleData) 0 = [[''B'', ''y'', ''good.com'']]"
    by code_simp
  note t = C4_no_call_batch [OF h, of alwaysThrows "hd plausibleData" initialRunState]
  have a: "processBatch alwaysThrows (hd plausibleData) (tl plausibleData) 0 initialRunState
       = initialRunState\<lparr>allProcessedDataRows := [[''B'', ''y'', ''good.com'']]\<rparr>"
    using conjunct1 [OF t] c by (simp add: initialRunState_def)
  have b: "generateContentCalls
         (processBatch alwaysThrows (hd plausibleData) (tl plausibleData) 0 initialRunState) = []"
    using conjunct1 [OF conjunct2 [OF t]] by (simp add: initialRunState_def)
  have d: "(0 + 1, 0) \<notin> set (generateContentCalls
                            (runBatches alwaysThrows (hd plausibleData) (tl plausibleData)))"
    using conjunct2 [OF conjunct2 [OF t]] by blast
  show ?thesis using h a b d by blast
qed







text \<open>
  C3. A run on data with a header and at least one data row returns data with the same
  header and, position by position, the data rows of the input: each output row is the
  input row at its position, or that row padded to three cells with a new cell 2, and an
  input row whose URL was plausible is returned as it is. This holds for every client,
  so for every pattern of successes and skipped batches.
\<close>

theorem C3_order_preserved:
  assumes "2 \<le> length initialDataForProcessing"
  shows "\<exists>res. handleFindUrlsWithAi (Some genAI) initialDataForProcessing = Inr res
            \<and> hd (displayData res) = hd initialDataForProcessing
            \<and> list_all2 rowPreserved (tl initialDataForProcessing) (tl (displayData res))"
proof -
  let ?h = "hd initialDataForProcessing"
  let ?d = "tl initialDataForProcessing"
  from run_fold_rows [of genAI ?h ?d "totalBatches (length ?d)" initialRunState]
  obtain ys where ys: "allProcessedDataRows (runBatches genAI ?h ?d)
                         = allProcessedDataRows initialRunState @ ys"
    and p: "list_all2 rowPreserved (take (totalBatches (length ?d) * BATCH_SIZE) ?d) ys"
    unfolding runBatches_def by blast
  have "take (totalBatches (length ?d) * BATCH_SIZE) ?d = ?d"
    using totalBatches_covers [of "length ?d"] by simp
  with p ys have "list_all2 rowPreserved ?d (allProcessedDataRows (runBatches genAI ?h ?d))"
    by (simp add: initialRunState_def)
  with assms show ?thesis by (simp add: handleFindUrlsWithAi_def Let_def)
qed

theorem C3_order_preserved_witness:
  "2 \<le> length orderData
   \<and> length (tl orderData) = 21
   \<and> handleFindUrlsWithAi (Some firstBatchOnly) orderData
       = Inr \<lparr>displayData = orderResult,
              opStatus = Error,
              opEstimatedCost = calculateOperationCost 14 5 2 flash,
              finalState =
                \<lparr>currentRunOpInputTokens = 14, currentRunOpOutputTokens = 5,
                 currentRunOpApiRequests = 2, runSkippedBatchNumbersLocal = [2],
                 allProcessedDataRows = tl orderResult,
                 generateContentCalls = [(1, 0), (2, 0), (2, 1), (2, 2), (2, 3)]\<rparr>\<rparr>
   \<and> hd orderResult = hd orderData
   \<and> list_all2 rowPreserved (tl orderData) (tl orderResult)"
proof -
  have h: "2 \<le> length orderData" by (simp add: orderData_def)
  have l: "length (tl orderData) = 21" by (simp add: orderData_def)
  have v: "handleFindUrlsWithAi (Some firstBatchOnly) orderData
       = Inr \<lparr>displayData = orderResult,
              opStatus = Error,
              opEstimatedCost = calculateOperationCost 14 5 2 flash,
              finalState =
                \<lparr>currentRunOpInputTokens = 14, currentRunOpOutputTokens = 5,
                 currentRunOpApiRequests = 2, runSkippedBatchNumbersLocal = [2],
                 allProcessedDataRows = tl orderResult,
                 generateContentCalls = [(1, 0), (2, 0), (2, 1), (2, 2), (2, 3)]\<rparr>\<rparr>"
    by code_simp
  from C3_order_preserved [OF h, of firstBatchOnly]
  obtain res where r: "handleFindUrlsWithAi (Some firstBatchOnly) orderData = Inr res"
    and hd: "hd (displayData res) = hd orderData"
    and p: "list_all2 rowPreserved (tl orderData) (tl (displayData res))"
    by blast
  from r v have "displayData res = orderResult" by auto
  with hd p have "hd orderResult = hd orderData"
    and "list_all2 rowPreserved (tl orderData) (tl orderResult)" by simp_all
  with h l v show ?thesis by blast
qed

section \<open>The estimate against the run\<close>

lemma estimate_same_partition:
  "totalBatches_estimate n = totalBatches n"
  "currentChunk_estimate dataRows i = currentChunk dataRows i"
  by (simp_all add: totalBatches_estimate_def totalBatches_def currentChunk_estimate_def
        currentChunk_def BATCH_SIZE_estimate_def BATCH_SIZE_def)

lemma estimatorCountsBatch_iff:
  "estimatorCountsBatch dataRows i
     \<longleftrightarrow> (\<exists>r \<in> set (currentChunk dataRows i). \<not> isPlausibleUrl (cellAt r 2))"
  by (auto simp add: estimatorCountsBatch_def itemsRequiringAiLookup_estimate_def
        estimate_same_partition filter_empty_conv)

lemma estimatorCountsBatch_items:
  "estimatorCountsBatch dataRows i \<longleftrightarrow> itemsRequiringAiLookup (currentChunk dataRows i) \<noteq> []"
  by (simp add: estimatorCountsBatch_iff items_empty_iff)

lemma filter_snd:
  "map snd (filter (\<lambda>(index, r). P r) zs) = filter P (map snd zs)"
  by (induction zs) auto

lemma items_rows:
  "map snd (itemsRequiringAiLookup chunk) = filter (\<lambda>r. \<not> isPlausibleUrl (cellAt r 2)) chunk"
  by (simp add: itemsRequiringAiLookup_def filter_snd)

lemma estimate_fold_requests:
  "snd (fold (estimateBatch genAI headerRow dataRows) [0..<k] totals)
     = snd totals + length (filter (estimatorCountsBatch dataRows) [0..<k])"
  by (induction k) (simp_all add: estimateBatch_def)

lemma count_batches:
  "length (filter P [0..<k]) = card {i. i < k \<and> P i}"
proof -
  have "set (filter P [0..<k]) = {i. i < k \<and> P i}" by auto
  moreover have "distinct (filter P [0..<k])" by simp
  ultimately show ?thesis by (metis distinct_card)
qed

text \<open>
  C7. The estimator and the run cut the data rows into the same chunks of 20 and select
  the same rows of each chunk. A batch is counted by the estimator exactly when the log of
  the run holds a call of \<open>generateContent\<close> for it, and the requests of the estimate are
  the number of batches with at least one row whose cell 2 is not a plausible URL.
\<close>

theorem C7_estimator_matches_run:
  assumes "2 \<le> length dataForEstimation"
  shows "\<exists>est res.
           handleEstimateFullAiRunCost (Some genAI) dataForEstimation totalApiRequestsMade = Inr est
         \<and> handleFindUrlsWithAi (Some genAI) dataForEstimation = Inr res
         \<and> BATCH_SIZE_estimate = 20 \<and> BATCH_SIZE = 20
         \<and> totalBatches_estimate (length (tl dataForEstimation))
             = totalBatches (length (tl dataForEstimation))
         \<and> (\<forall>i. currentChunk_estimate (tl dataForEstimation) i
                  = currentChunk (tl dataForEstimation) i
                \<and> itemsRequiringAiLookup_estimate (currentChunk_estimate (tl dataForEstimation) i)
                  = map snd (itemsRequiringAiLookup (currentChunk (tl dataForEstimation) i)))
         \<and> (\<forall>i<totalBatches (length (tl dataForEstimation)).
               estimatorCountsBatch (tl dataForEstimation) i
                 \<longleftrightarrow> (\<exists>r. (i + 1, r) \<in> set (generateContentCalls (finalState res))))
         \<and> apiRequests est
             = card {i. i < totalBatches (length (tl dataForEstimation))
                        \<and> (\<exists>r \<in> set (currentChunk (tl dataForEstimation) i).
                              \<not> isPlausibleUrl (cellAt r 2))}"
proof -
  let ?h = "hd dataForEstimation"
  let ?d = "tl dataForEstimation"
  let ?n = "totalBatches (length ?d)"
  let ?st = "runBatches genAI ?h ?d"
  have calls: "fst ` set (generateContentCalls ?st)
                 = {i + 1 | i. i < ?n \<and> itemsRequiringAiLookup (currentChunk ?d i) \<noteq> []}"
    unfolding runBatches_def run_fold_calls by (simp add: initialRunState_def)
  have iff: "\<forall>i<?n. estimatorCountsBatch ?d i
                 \<longleftrightarrow> (\<exists>r. (i + 1, r) \<in> set (generateContentCalls ?st))"
  proof (intro allI impI)
    fix i assume i: "i < ?n"
    have "(\<exists>r. (i + 1, r) \<in> set (generateContentCalls ?st))
            \<longleftrightarrow> i + 1 \<in> fst ` set (generateContentCalls ?st)"
      by force
    also have "\<dots> \<longleftrightarrow> itemsRequiringAiLookup (currentChunk ?d i) \<noteq> []"
      unfolding calls using i by auto
    finally show "estimatorCountsBatch ?d i
                 \<longleftrightarrow> (\<exists>r. (i + 1, r) \<in> set (generateContentCalls ?st))"
      by (simp add: estimatorCountsBatch_items)
  qed
  have items: "itemsRequiringAiLookup_estimate (currentChunk_estimate ?d i)
                  = map snd (itemsRequiringAiLookup (currentChunk ?d i))" for i
    by (simp add: itemsRequiringAiLookup_estimate_def estimate_same_partition items_rows)
  have reqs: "snd (fold (estimateBatch genAI ?h ?d) [0..<totalBatches_estimate (length ?d)] (0, 0))
                = card {i. i < ?n \<and> (\<exists>r \<in> set (currentChunk ?d i). \<not> isPlausibleUrl (cellAt r 2))}"
    by (simp add: estimate_fold_requests estimate_same_partition count_batches
          estimatorCountsBatch_iff)
  show ?thesis
    using assms iff items reqs
    by (simp add: handleEstimateFullAiRunCost_def handleFindUrlsWithAi_def Let_def
          estimate_same_partition BATCH_SIZE_estimate_def BATCH_SIZE_def)
qed

theorem C7_estimator_matches_run_witness:
  "2 \<le> length exampleData
   \<and> (\<exists>est res.
           handleEstimateFullAiRunCost (Some throwsThenAnswers) exampleData 0 = Inr est
         \<and> handleFindUrlsWithAi (Some throwsThenAnswers) exampleData = Inr res
         \<and> BATCH_SIZE_estimate = 20 \<and> BATCH_SIZE = 20
         \<and> totalBatches_estimate (length (tl exampleData))
             = totalBatches (length (tl exampleData))
         \<and> (\<forall>i. currentChunk_estimate (tl exampleData) i
                  = currentChunk (tl exampleData) i
                \<and> itemsRequiringAiLookup_estimate (currentChunk_estimate (tl exampleData) i)
                  = map snd (itemsRequiringAiLookup (currentChunk (tl exampleData) i)))
         \<and> (\<forall>i<totalBatches (length (tl exampleData)).
               estimatorCountsBatch (tl exampleData) i
                 \<longleftrightarrow> (\<exists>r. (i + 1, r) \<in> set (generateContentCalls (finalState res))))
         \<and> apiRequests est
             = card {i. i < totalBatches (length (tl exampleData))
                        \<and> (\<exists>r \<in> set (currentChunk (tl exampleData) i).
                              \<not> isPlausibleUrl (cellAt r 2))})
   \<and> handleEstimateFullAiRunCost (Some throwsThenAnswers) exampleData 0
       = Inr \<lparr>inputTokens = 7, apiRequests = 1, estimatedInputCost = 7 / 1000000 * 0.15\<rparr>"
proof -
  have h: "2 \<le> length exampleData" by (simp add: exampleData_def)
  have v: "handleEstimateFullAiRunCost (Some throwsThenAnswers) exampleData 0
       = Inr \<lparr>inputTokens = 7, apiRequests = 1, estimatedInputCost = 7 / 1000000 * 0.15\<rparr>"
    by code_simp
  show ?thesis
    by (rule conjI [OF h conjI [OF C7_estimator_matches_run [OF h] v]])
qed

end
